theory Spec2Isabelle
  imports Main "HOL-Library.Word"
begin


section \<open>The cost model (internal/gateway/circuitbreaker.go)\<close>

text \<open>
  Go's \<^verbatim>\<open>int64\<close> is a 64-bit word read in two's complement (\<open>sint\<close>); \<open>+\<close> and
  \<open>*\<close> wrap around as the Go operators do. The \<^verbatim>\<open>int\<close> of \<^verbatim>\<open>tokenCount\<close> is the
  64-bit \<^verbatim>\<open>int\<close> of the platforms the gateway is built for, so the conversion
  \<^verbatim>\<open>int64(tokenCount)\<close> is the identity. The two untyped constants take the type
  \<^verbatim>\<open>int64\<close> at both places they are used.
\<close>

type_synonym int64 = "64 word"

definition MaxUsageMicroDollars :: int64 where
  "MaxUsageMicroDollars = 10000000"

definition CostPerTokenMicroDollars :: int64 where
  "CostPerTokenMicroDollars = 2"

text \<open>The errors the two backends wrap and return.\<close>

datatype error = RedisGetError | InvalidUsageValue | RedisIncrByError

section \<open>The in-process backend (internal/gateway/memory_circuitbreaker.go)\<close>

text \<open>
  \<^verbatim>\<open>usageMap\<close> maps an API key to a pointer to its counter. A pointer is stored once
  per key and never replaced or handed out, so the cell is identified by its key and the map
  is a map from keys to counter values. Every method takes the breaker and returns it with
  its result, also the methods that only read.
\<close>

record MemoryCircuitBreaker =
  usageMap :: "string \<rightharpoonup> int64"

definition NewMemoryCircuitBreaker :: MemoryCircuitBreaker where
  "NewMemoryCircuitBreaker = \<lparr>usageMap = Map.empty\<rparr>"

definition syncMap_Load :: "(string \<rightharpoonup> int64) \<Rightarrow> string \<Rightarrow> int64 option" where
  "syncMap_Load m key = m key"

text \<open>\<^verbatim>\<open>LoadOrStore\<close> stores a fresh cell holding \<open>v\<close> only when the key has none.\<close>

definition syncMap_LoadOrStore :: "(string \<rightharpoonup> int64) \<Rightarrow> string \<Rightarrow> int64 \<Rightarrow> (string \<rightharpoonup> int64)" where
  "syncMap_LoadOrStore m key v = (case m key of None \<Rightarrow> m(key \<mapsto> v) | Some _ \<Rightarrow> m)"

text \<open>\<^verbatim>\<open>atomic.AddInt64\<close> on the cell of a key that is present; the sum wraps.\<close>

definition atomic_AddInt64 :: "(string \<rightharpoonup> int64) \<Rightarrow> string \<Rightarrow> int64 \<Rightarrow> (string \<rightharpoonup> int64)" where
  "atomic_AddInt64 m key delta = (case m key of None \<Rightarrow> m | Some old \<Rightarrow> m(key \<mapsto> old + delta))"

definition Memory_CheckLimit :: "MemoryCircuitBreaker \<Rightarrow> string \<Rightarrow> (error + bool) \<times> MemoryCircuitBreaker" where
  "Memory_CheckLimit r apiKey =
     (case syncMap_Load (usageMap r) apiKey of
        None \<Rightarrow> (Inr True, r)
      | Some usage \<Rightarrow> (Inr (sint usage < sint MaxUsageMicroDollars), r))"

definition Memory_AddUsage :: "MemoryCircuitBreaker \<Rightarrow> string \<Rightarrow> int64 \<Rightarrow> error option \<times> MemoryCircuitBreaker" where
  "Memory_AddUsage r apiKey tokenCount =
     (let cost = tokenCount * CostPerTokenMicroDollars;
          m1 = syncMap_LoadOrStore (usageMap r) apiKey 0;
          m2 = atomic_AddInt64 m1 apiKey cost
      in (None, r\<lparr>usageMap := m2\<rparr>))"

definition Memory_GetUsage :: "MemoryCircuitBreaker \<Rightarrow> string \<Rightarrow> (error + int64) \<times> MemoryCircuitBreaker" where
  "Memory_GetUsage r apiKey =
     (case syncMap_Load (usageMap r) apiKey of
        None \<Rightarrow> (Inr 0, r)
      | Some usage \<Rightarrow> (Inr usage, r))"

section \<open>The remote backend (internal/gateway/circuitbreaker.go)\<close>

subsection \<open>Decimal integers: \<^verbatim>\<open>strconv.ParseInt(val, 10, 64)\<close> and the store's formatting\<close>

definition is_digit :: "char \<Rightarrow> bool" where
  "is_digit c = (48 \<le> (of_char c :: nat) \<and> (of_char c :: nat) \<le> 57)"

definition digit_val :: "char \<Rightarrow> nat" where
  "digit_val c = (of_char c :: nat) - 48"

definition digit_char :: "nat \<Rightarrow> char" where
  "digit_char d = char_of (48 + d)"

text \<open>The value of a digit string read left to right, from the value \<open>acc\<close> read so far.\<close>

fun digits_value :: "nat \<Rightarrow> string \<Rightarrow> nat" where
  "digits_value acc [] = acc"
| "digits_value acc (c # cs) = digits_value (10 * acc + digit_val c) cs"

datatype num_error = ErrSyntax | ErrRange

text \<open>
  \<^verbatim>\<open>ParseInt\<close> in base 10 with bit size 64: an optional sign, then one or more digits
  and nothing else; a value outside \<^verbatim>\<open>int64\<close> is a range error.
\<close>

definition ParseInt :: "string \<Rightarrow> num_error + int64" where
  "ParseInt s =
     (if s = [] then Inl ErrSyntax
      else
        let neg = (hd s = CHR ''-'');
            ds = (if hd s = CHR ''+'' \<or> hd s = CHR ''-'' then tl s else s)
        in if ds = [] \<or> \<not> list_all is_digit ds then Inl ErrSyntax
           else
             let un = digits_value 0 ds
             in if \<not> neg \<and> un \<ge> 2 ^ 63 then Inl ErrRange
                else if neg \<and> un > 2 ^ 63 then Inl ErrRange
                else Inr (if neg then - word_of_nat un else word_of_nat un))"

fun nat_to_dec :: "nat \<Rightarrow> string" where
  "nat_to_dec n = (if n < 10 then [digit_char n] else nat_to_dec (n div 10) @ [digit_char (n mod 10)])"

declare nat_to_dec.simps [simp del]

definition int_to_dec :: "int \<Rightarrow> string" where
  "int_to_dec i = (if i < 0 then CHR ''-'' # nat_to_dec (nat (- i)) else nat_to_dec (nat i))"

subsection \<open>The store\<close>

text \<open>
  The counter store is reached through the \<^verbatim>\<open>go-redis\<close> client, which is not part of the
  repository. It is modelled by the two commands the backend sends: a server holds strings
  under keys and may be unreachable. \<^verbatim>\<open>GET\<close> answers \<^verbatim>\<open>redis.Nil\<close> for a missing key.
  \<^verbatim>\<open>INCRBY\<close> reads a missing key as 0, refuses a value that is not the canonical decimal
  form of a 64-bit integer, refuses a sum outside 64 bits, and stores the sum in
  canonical decimal form.
\<close>

record redis_server =
  kv :: "string \<rightharpoonup> string"
  reachable :: bool

datatype redis_reply = RedisNil | RedisFailure | RedisString string

definition redis_Get :: "redis_server \<Rightarrow> string \<Rightarrow> redis_reply" where
  "redis_Get srv key =
     (if \<not> reachable srv then RedisFailure
      else case kv srv key of None \<Rightarrow> RedisNil | Some v \<Rightarrow> RedisString v)"

definition canonical_int64 :: "string \<Rightarrow> int64 option" where
  "canonical_int64 v =
     (case ParseInt v of
        Inl _ \<Rightarrow> None
      | Inr n \<Rightarrow> if int_to_dec (sint n) = v then Some n else None)"

definition redis_IncrBy :: "redis_server \<Rightarrow> string \<Rightarrow> int64 \<Rightarrow> bool \<times> redis_server" where
  "redis_IncrBy srv key incr =
     (if \<not> reachable srv then (False, srv)
      else
        case (case kv srv key of None \<Rightarrow> Some 0 | Some v \<Rightarrow> canonical_int64 v) of
          None \<Rightarrow> (False, srv)
        | Some old \<Rightarrow>
            if sint old + sint incr < - (2 ^ 63) \<or> sint old + sint incr > 2 ^ 63 - 1
            then (False, srv)
            else (True, srv\<lparr>kv := (kv srv)(key \<mapsto> int_to_dec (sint old + sint incr))\<rparr>))"

subsection \<open>The backend\<close>

record RedisCircuitBreaker =
  client :: redis_server

definition getUsageKey :: "string \<Rightarrow> string" where
  "getUsageKey apiKey = ''apikey:'' @ apiKey @ '':usage''"

definition Redis_CheckLimit :: "RedisCircuitBreaker \<Rightarrow> string \<Rightarrow> (error + bool) \<times> RedisCircuitBreaker" where
  "Redis_CheckLimit r apiKey =
     (case redis_Get (client r) (getUsageKey apiKey) of
        RedisNil \<Rightarrow> (Inr True, r)
      | RedisFailure \<Rightarrow> (Inl RedisGetError, r)
      | RedisString val \<Rightarrow>
          (case ParseInt val of
             Inl _ \<Rightarrow> (Inl InvalidUsageValue, r)
           | Inr usage \<Rightarrow> (Inr (sint usage < sint MaxUsageMicroDollars), r)))"

definition Redis_AddUsage :: "RedisCircuitBreaker \<Rightarrow> string \<Rightarrow> int64 \<Rightarrow> error option \<times> RedisCircuitBreaker" where
  "Redis_AddUsage r apiKey tokenCount =
     (let cost = tokenCount * CostPerTokenMicroDollars;
          (ok, srv) = redis_IncrBy (client r) (getUsageKey apiKey) cost
      in (if ok then None else Some RedisIncrByError, r\<lparr>client := srv\<rparr>))"

definition Redis_GetUsage :: "RedisCircuitBreaker \<Rightarrow> string \<Rightarrow> (error + int64) \<times> RedisCircuitBreaker" where
  "Redis_GetUsage r apiKey =
     (case redis_Get (client r) (getUsageKey apiKey) of
        RedisNil \<Rightarrow> (Inr 0, r)
      | RedisFailure \<Rightarrow> (Inl RedisGetError, r)
      | RedisString val \<Rightarrow>
          (case ParseInt val of
             Inl _ \<Rightarrow> (Inl InvalidUsageValue, r)
           | Inr usage \<Rightarrow> (Inr usage, r)))"

section \<open>The stream relay (\<^verbatim>\<open>StreamResponse\<close>)\<close>

subsection \<open>The caller's response writer and the usage channel\<close>

text \<open>
  The \<^verbatim>\<open>http.ResponseWriter\<close> of the caller: the header lines added so far, the status
  once it is written, the body bytes written so far, and whether the writer is also an
  \<^verbatim>\<open>http.Flusher\<close>. Every write is taken to succeed (the source ignores the results of
  \<^verbatim>\<open>Write\<close>).
\<close>

record response_writer =
  w_headers :: "(string \<times> string) list"
  w_status :: "nat option"
  w_body :: string
  w_flusher :: bool

definition Header_Add :: "response_writer \<Rightarrow> string \<Rightarrow> string \<Rightarrow> response_writer" where
  "Header_Add w k v = w\<lparr>w_headers := w_headers w @ [(k, v)]\<rparr>"

text \<open>Only the first \<^verbatim>\<open>WriteHeader\<close> sets the status.\<close>

definition WriteHeader :: "response_writer \<Rightarrow> nat \<Rightarrow> response_writer" where
  "WriteHeader w code = (case w_status w of None \<Rightarrow> w\<lparr>w_status := Some code\<rparr> | Some _ \<Rightarrow> w)"

text \<open>A \<^verbatim>\<open>Write\<close> before any \<^verbatim>\<open>WriteHeader\<close> writes status 200 first.\<close>

definition Write :: "response_writer \<Rightarrow> string \<Rightarrow> response_writer" where
  "Write w bs = (WriteHeader w 200)\<lparr>w_body := w_body w @ bs\<rparr>"

text \<open>The upstream's \<^verbatim>\<open>http.Response\<close>; \<open>Body\<close> is the bytes read until the body ends.\<close>

record http_response =
  StatusCode :: nat
  Header :: "(string \<times> string list) list"
  Body :: string

record UsageRecord =
  APIKey :: string
  TokenCount :: int64

text \<open>
  A buffered channel of usage records: its capacity and the records waiting in it. The
  consumer is the background goroutine of \<^verbatim>\<open>main\<close>; a send meets the channel as the
  consumer has left it.
\<close>

record usage_chan =
  chan_cap :: nat
  chan_buf :: "UsageRecord list"

text \<open>
  \<^verbatim>\<open>select { case ch <- v: default: }\<close>: the send happens when the buffer has room, and
  otherwise the default branch runs. The flag tells which.
\<close>

definition chan_try_send :: "usage_chan \<Rightarrow> UsageRecord \<Rightarrow> usage_chan \<times> bool" where
  "chan_try_send ch v =
     (if length (chan_buf ch) < chan_cap ch then (ch\<lparr>chan_buf := chan_buf ch @ [v]\<rparr>, True)
      else (ch, False))"

subsection \<open>\<^verbatim>\<open>bufio.Scanner\<close> with its default split function \<^verbatim>\<open>ScanLines\<close>\<close>

definition LF :: char where
  "LF = CHR 0x0A"

definition CR :: char where
  "CR = CHR 0x0D"

definition dropCR :: "string \<Rightarrow> string" where
  "dropCR data = (if data \<noteq> [] \<and> last data = CR then butlast data else data)"

text \<open>
  The tokens \<^verbatim>\<open>scanner.Scan\<close> yields over a body, and whether scanning stopped with
  \<^verbatim>\<open>ErrTooLong\<close>. \<open>cur\<close> is the part of the current line already in the buffer. A line
  feed ends the token, which loses one trailing carriage return; at the end of the body a
  non-empty rest is a last token. The buffer holds at most \<open>maxTokenSize\<close> bytes.
  \<^verbatim>\<open>Scan\<close> offers the buffer to the split function before it tests whether the buffer is
  full, and the read that returns the last bytes of an HTTP body reports the end of the
  body with them. So \<^verbatim>\<open>Scan\<close> fails, and the loop ends, once \<open>maxTokenSize\<close> bytes of one
  line are in the buffer with no line feed among them and the body has not ended there; a
  last line without line feed that fills the buffer exactly is still a token.
\<close>

fun scan_lines :: "nat \<Rightarrow> string \<Rightarrow> string \<Rightarrow> string list \<times> bool" where
  "scan_lines maxTokenSize cur [] = (if cur = [] then ([], False) else ([dropCR cur], False))"
| "scan_lines maxTokenSize cur (c # cs) =
     (if c = LF then
        (let (tokens, tooLong) = scan_lines maxTokenSize [] cs in (dropCR cur # tokens, tooLong))
      else if maxTokenSize \<le> Suc (length cur) \<and> cs \<noteq> [] then ([], True)
      else scan_lines maxTokenSize (cur @ [c]) cs)"

text \<open>\<^verbatim>\<open>scanner.Buffer(buf, 1024*1024)\<close>\<close>

definition maxScanTokenSize :: nat where
  "maxScanTokenSize = 1024 * 1024"

subsection \<open>The relay loop\<close>

definition bytes_HasPrefix :: "string \<Rightarrow> string \<Rightarrow> bool" where
  "bytes_HasPrefix s pre = (length pre \<le> length s \<and> take (length pre) s = pre)"

definition bytes_TrimPrefix :: "string \<Rightarrow> string \<Rightarrow> string" where
  "bytes_TrimPrefix s pre = (if bytes_HasPrefix s pre then drop (length pre) s else s)"

text \<open>
  The struct a chunk payload is decoded into. \<^verbatim>\<open>json.Unmarshal\<close> belongs to Go's
  standard library and is a parameter of the relay: \<open>None\<close> when it returns an error,
  otherwise the chunk it filled in.
\<close>

record usage_block =
  TotalTokens :: int64

record chunk =
  Usage :: "usage_block option"

type_synonym unmarshal = "string \<Rightarrow> chunk option"

text \<open>
  What inspecting one line assigns to \<^verbatim>\<open>tokenCount\<close>, if anything: the line starts with
  \<^verbatim>\<open>data: \<close>, the rest does not start with \<^verbatim>\<open>[DONE]\<close>, decodes without error and
  has a usage block.
\<close>

definition usage_of_line :: "unmarshal \<Rightarrow> string \<Rightarrow> int64 option" where
  "usage_of_line unm line =
     (if bytes_HasPrefix line ''data: '' then
        (let data = bytes_TrimPrefix line ''data: '' in
         if bytes_HasPrefix data ''[DONE]'' then None
         else case unm data of
                None \<Rightarrow> None
              | Some c \<Rightarrow> (case Usage c of None \<Rightarrow> None | Some u \<Rightarrow> Some (TotalTokens u)))
      else None)"

text \<open>The loop over the scanned lines: write the line and a line feed, then inspect it.\<close>

fun relay_loop :: "unmarshal \<Rightarrow> string list \<Rightarrow> response_writer \<Rightarrow> int64 \<Rightarrow> response_writer \<times> int64" where
  "relay_loop unm [] w tokenCount = (w, tokenCount)"
| "relay_loop unm (line # rest) w tokenCount =
     (let w1 = Write w line;
          w2 = Write w1 [LF]
      in relay_loop unm rest w2
           (case usage_of_line unm line of None \<Rightarrow> tokenCount | Some n \<Rightarrow> n))"

text \<open>
  What a call leaves behind: the caller's response, the channel, and the records the
  \<^verbatim>\<open>select\<close> statement offered to the channel (sent or not).
\<close>

record stream_outcome =
  out_w :: response_writer
  out_chan :: "usage_chan option"
  out_submitted :: "UsageRecord list"

definition copy_headers :: "response_writer \<Rightarrow> (string \<times> string list) list \<Rightarrow> response_writer" where
  "copy_headers w hs = foldl (\<lambda>w1 (k, vv). foldl (\<lambda>w2 v. Header_Add w2 k v) w1 vv) w hs"

definition StreamResponse ::
  "unmarshal \<Rightarrow> response_writer \<Rightarrow> http_response \<Rightarrow> string \<Rightarrow> usage_chan option \<Rightarrow> stream_outcome" where
  "StreamResponse unm w resp apiKey usageChan =
     (let w1 = WriteHeader (copy_headers w (Header resp)) (StatusCode resp)
      in if \<not> w_flusher w1 then \<lparr>out_w = w1, out_chan = usageChan, out_submitted = []\<rparr>
         else
           let (w2, tokenCount) =
                 relay_loop unm (fst (scan_lines maxScanTokenSize [] (Body resp))) w1 0
           in if 0 < sint tokenCount \<and> apiKey \<noteq> [] then
                (case usageChan of
                   None \<Rightarrow> \<lparr>out_w = w2, out_chan = None, out_submitted = []\<rparr>
                 | Some ch \<Rightarrow>
                     let record = \<lparr>APIKey = apiKey, TokenCount = tokenCount\<rparr>;
                         (ch1, sent) = chan_try_send ch record
                     in \<lparr>out_w = w2, out_chan = Some ch1, out_submitted = [record]\<rparr>)
              else \<lparr>out_w = w2, out_chan = usageChan, out_submitted = []\<rparr>)"

text \<open>
  The answers of \<^verbatim>\<open>json.Unmarshal\<close> on the payloads the examples below use: the usage
  chunk and a content chunk of the mock upstream of \<^verbatim>\<open>main\<close>, and a usage chunk
  reporting no tokens. No example decodes any other payload. The properties are proved for
  every decoder; this one only instantiates them.
\<close>

definition example_Unmarshal :: unmarshal where
  \<open>example_Unmarshal data =
     (if data = ''{"usage":{"prompt_tokens":10,"completion_tokens":8,"total_tokens":18}}''
        then Some \<lparr>Usage = Some \<lparr>TotalTokens = 18\<rparr>\<rparr>
      else if data = ''{"usage":{"prompt_tokens":0,"completion_tokens":0,"total_tokens":0}}''
        then Some \<lparr>Usage = Some \<lparr>TotalTokens = 0\<rparr>\<rparr>
      else if data = ''{"choices":[{"delta":{"content":"Hello"}}]}''
        then Some \<lparr>Usage = None\<rparr>
      else None)\<close>

text \<open>
  Two upstream bodies for the examples: the last two events of the mock upstream (the
  usage chunk, then the terminal sentinel, each followed by an empty line), and the same
  with a usage chunk that reports no tokens.
\<close>

definition example_usage_stream :: string where
  \<open>example_usage_stream =
     ''data: {"usage":{"prompt_tokens":10,"completion_tokens":8,"total_tokens":18}}'' @ [LF] @ [LF]
       @ ''data: [DONE]'' @ [LF] @ [LF]\<close>

definition example_zero_usage_stream :: string where
  \<open>example_zero_usage_stream =
     ''data: {"usage":{"prompt_tokens":0,"completion_tokens":0,"total_tokens":0}}'' @ [LF] @ [LF]
       @ ''data: [DONE]'' @ [LF] @ [LF]\<close>

section \<open>The proxy handler (internal/gateway/handler.go)\<close>

subsection \<open>Requests, JSON values and the library calls of the handler\<close>

text \<open>
  A decoded JSON value. With \<^verbatim>\<open>UseNumber\<close> a number keeps its literal. The payload is a
  Go map from field names to values.
\<close>

datatype json =
  JNull
| JBool bool
| JNumber string
| JString string
| JArray "json list"
| JObject "(string \<times> json) list"

type_synonym payload = "string \<rightharpoonup> json"

text \<open>The inbound request; \<open>req_body\<close> is \<open>None\<close> when \<^verbatim>\<open>io.ReadAll(r.Body)\<close> fails.\<close>

record http_request =
  req_method :: string
  req_header :: "(string \<times> string list) list"
  req_body :: "string option"

record upstream_request =
  up_method :: string
  up_url :: string
  up_header :: "(string \<times> string) list"
  up_body :: string

text \<open>
  The calls into Go's standard library and the network, as parameters of the handler:
  \<^item> \<open>json_Decode\<close>: \<^verbatim>\<open>decoder.Decode(&payload)\<close> into a nil map. \<open>None\<close> is an error;
    \<open>Some None\<close> is success leaving the map nil (the body is the JSON \<^verbatim>\<open>null\<close>);
    \<open>Some (Some m)\<close> is success with the decoded object.
  \<^item> \<open>json_Marshal\<close>: \<open>None\<close> is an error.
  \<^item> \<open>json_Unmarshal\<close>: the chunk decoder of the relay.
  \<^item> \<open>http_NewRequest_ok\<close>: whether \<^verbatim>\<open>http.NewRequest\<close> accepts the method and the URL.
  \<^item> \<open>client_Do\<close>: the round trip to the upstream; \<open>None\<close> is a transport error.
\<close>

record go_lib =
  json_Decode :: "string \<Rightarrow> payload option option"
  json_Marshal :: "payload \<Rightarrow> string option"
  json_Unmarshal :: unmarshal
  http_NewRequest_ok :: "string \<Rightarrow> string \<Rightarrow> bool"
  client_Do :: "upstream_request \<Rightarrow> http_response option"

text \<open>
  The handler holds the upstream address, the circuit breaker and the usage channel. Of the
  \<^verbatim>\<open>CircuitBreaker\<close> interface the handler calls \<^verbatim>\<open>CheckLimit\<close> only, so the breaker is
  that method; \<open>None\<close> is a nil breaker.
\<close>

record ProxyHandler =
  upstreamURL :: string
  circuitBreaker :: "(string \<Rightarrow> error + bool) option"
  usageChan :: "usage_chan option"

definition Header_Get :: "(string \<times> string list) list \<Rightarrow> string \<Rightarrow> string" where
  "Header_Get hs k = (case map_of hs k of Some (v # _) \<Rightarrow> v | _ \<Rightarrow> [])"

definition Header_Del :: "(string \<times> string) list \<Rightarrow> string \<Rightarrow> (string \<times> string) list" where
  "Header_Del hs k = filter (\<lambda>(k1, _). k1 \<noteq> k) hs"

definition Header_Set :: "(string \<times> string) list \<Rightarrow> string \<Rightarrow> string \<Rightarrow> (string \<times> string) list" where
  "Header_Set hs k v = Header_Del hs k @ [(k, v)]"

text \<open>\<^verbatim>\<open>http.Error\<close>: a plain-text reply with the status and the message on a line.\<close>

definition http_Error :: "response_writer \<Rightarrow> string \<Rightarrow> nat \<Rightarrow> response_writer" where
  "http_Error w msg code =
     (let h1 = Header_Del (w_headers w) ''Content-Length'';
          h2 = Header_Set h1 ''Content-Type'' ''text/plain; charset=utf-8'';
          h3 = Header_Set h2 ''X-Content-Type-Options'' ''nosniff'';
          w1 = WriteHeader (w\<lparr>w_headers := h3\<rparr>) code
      in Write w1 (msg @ [LF]))"

subsection \<open>\<^verbatim>\<open>ServeHTTP\<close>\<close>

text \<open>
  What a call leaves behind: the caller's response, the channel, the requests sent to the
  upstream, and the usage records offered to the channel.
\<close>

record handler_outcome =
  h_w :: response_writer
  h_chan :: "usage_chan option"
  h_upstream_calls :: "upstream_request list"
  h_submitted :: "UsageRecord list"

text \<open>A reply by \<^verbatim>\<open>http.Error\<close> followed by \<^verbatim>\<open>return\<close>, before any upstream call.\<close>

definition reply_error :: "ProxyHandler \<Rightarrow> response_writer \<Rightarrow> string \<Rightarrow> nat \<Rightarrow> handler_outcome" where
  "reply_error h w msg code =
     \<lparr>h_w = http_Error w msg code, h_chan = usageChan h, h_upstream_calls = [], h_submitted = []\<rparr>"

text \<open>Step 1: the API key of the \<^verbatim>\<open>Authorization\<close> header.\<close>

definition extract_apiKey :: "http_request \<Rightarrow> string" where
  "extract_apiKey r =
     (let authHeader = Header_Get (req_header r) ''Authorization''
      in if length authHeader > 7 \<and> take 7 authHeader = ''Bearer '' then drop 7 authHeader else [])"

text \<open>Step 2: the circuit breaker; the message and status of the rejection, if any.\<close>

definition check_circuit_breaker :: "ProxyHandler \<Rightarrow> string \<Rightarrow> (string \<times> nat) option" where
  "check_circuit_breaker h apiKey =
     (if apiKey \<noteq> [] then
        (case circuitBreaker h of
           None \<Rightarrow> None
         | Some CheckLimit \<Rightarrow>
             (case CheckLimit apiKey of
                Inl _ \<Rightarrow> Some (''Error validating rate limit'', 500)
              | Inr allowed \<Rightarrow>
                  if \<not> allowed then Some (''Limit Exceeded: Usage > $10.00'', 402) else None))
      else None)"

text \<open>
  Step 3, the injection: a nil payload becomes an empty map, then the two fields are
  assigned.
\<close>

definition inject_stream_options :: "payload option \<Rightarrow> payload" where
  "inject_stream_options payload =
     (let p0 = (case payload of None \<Rightarrow> Map.empty | Some m \<Rightarrow> m);
          p1 = p0(''stream'' \<mapsto> JBool True)
      in p1(''stream_options'' \<mapsto> JObject [(''include_usage'', JBool True)]))"

text \<open>Step 4: the upstream request with the inbound headers but \<^verbatim>\<open>Content-Length\<close>.\<close>

definition build_upstream_request :: "ProxyHandler \<Rightarrow> http_request \<Rightarrow> string \<Rightarrow> upstream_request" where
  "build_upstream_request h r modifiedBody =
     (let copied = concat (map (\<lambda>(k, vv). if k = ''Content-Length'' then [] else map (\<lambda>v. (k, v)) vv)
                     (req_header r))
      in \<lparr>up_method = req_method r, up_url = upstreamURL h,
          up_header = Header_Set copied ''Content-Length'' (nat_to_dec (length modifiedBody)),
          up_body = modifiedBody\<rparr>)"

definition ServeHTTP :: "go_lib \<Rightarrow> ProxyHandler \<Rightarrow> response_writer \<Rightarrow> http_request \<Rightarrow> handler_outcome" where
  "ServeHTTP lib h w r =
     (let apiKey = extract_apiKey r
      in case check_circuit_breaker h apiKey of
           Some (msg, code) \<Rightarrow> reply_error h w msg code
         | None \<Rightarrow>
             (case req_body r of
                None \<Rightarrow> reply_error h w ''Error reading request body'' 500
              | Some bodyBytes \<Rightarrow>
                  (case (if length bodyBytes > 0 then json_Decode lib bodyBytes else Some None) of
                     None \<Rightarrow> reply_error h w ''Invalid JSON payload'' 400
                   | Some payload \<Rightarrow>
                       (case json_Marshal lib (inject_stream_options payload) of
                          None \<Rightarrow> reply_error h w ''Error marshaling modified payload'' 500
                        | Some modifiedBody \<Rightarrow>
                            if \<not> http_NewRequest_ok lib (req_method r) (upstreamURL h)
                            then reply_error h w ''Error creating upstream request'' 500
                            else
                              (let upstreamReq = build_upstream_request h r modifiedBody
                               in case client_Do lib upstreamReq of
                                    None \<Rightarrow>
                                      (reply_error h w ''Bad Gateway'' 502)
                                        \<lparr>h_upstream_calls := [upstreamReq]\<rparr>
                                  | Some resp \<Rightarrow>
                                      (let out = StreamResponse (json_Unmarshal lib) w resp apiKey
                                                   (usageChan h)
                                       in \<lparr>h_w = out_w out, h_chan = out_chan out,
                                           h_upstream_calls = [upstreamReq],
                                           h_submitted = out_submitted out\<rparr>))))))"

text \<open>
  Library answers for the examples below: the decoder on the body \<^verbatim>\<open>{}\<close> (an empty
  object) and on the body \<^verbatim>\<open>{\<close> (an error; no example decodes any other body), the
  serialization of the payload injected into an empty object, and an upstream that answers
  200 with an empty body. The properties are proved for every library; this one only
  instantiates them.
\<close>

definition example_lib :: go_lib where
  \<open>example_lib =
     \<lparr>json_Decode = (\<lambda>b. if b = ''{}'' then Some (Some Map.empty) else None),
      json_Marshal = (\<lambda>p. Some ''{"stream":true,"stream_options":{"include_usage":true}}''),
      json_Unmarshal = example_Unmarshal,
      http_NewRequest_ok = (\<lambda>m u. True),
      client_Do = (\<lambda>q. Some \<lparr>StatusCode = 200, Header = [], Body = []\<rparr>)\<rparr>\<close>

section \<open>The JSON decoder of the handler (\<^verbatim>\<open>encoding/json\<close>)\<close>


































subsection \<open>\<^verbatim>\<open>json.Valid\<close>: the whole input is one JSON value\<close>



subsection \<open>\<^verbatim>\<open>Decoder.Decode\<close>: the first JSON value of the input\<close>




subsection \<open>Two invariants of the scanner\<close>



section \<open>Properties of the two backends\<close>

subsection \<open>Arithmetic on \<^verbatim>\<open>int64\<close> and decimal strings\<close>

lemmas memory_defs = Memory_CheckLimit_def Memory_AddUsage_def Memory_GetUsage_def
  syncMap_Load_def syncMap_LoadOrStore_def atomic_AddInt64_def

lemmas redis_defs = Redis_CheckLimit_def Redis_AddUsage_def Redis_GetUsage_def
  redis_Get_def redis_IncrBy_def

lemma sint_mul_cost:
  fixes n :: int64
  assumes "0 \<le> sint n" "sint n * 2 < 2 ^ 63"
  shows "sint (n * 2) = sint n * 2"
  using assms by (simp add: sint_word_ariths signed_take_bit_int_eq_self)

lemma sint_add_cost:
  fixes b n :: int64
  assumes "0 \<le> sint n" "sint n * 2 < 2 ^ 63" "sint b + sint n * 2 < 2 ^ 63"
  shows "sint (b + n * 2) = sint b + sint n * 2"
proof -
  have bl: "- (2 ^ 63) \<le> sint b" using sint_greater_eq [of b] by simp
  have "sint (b + n * 2) = signed_take_bit 63 (sint b + sint (n * 2))"
    by (simp add: sint_word_ariths)
  also have "\<dots> = sint b + sint n * 2"
    unfolding sint_mul_cost [OF assms(1,2)] using assms bl
    by (intro signed_take_bit_int_eq_self) simp_all
  finally show ?thesis .
qed

lemma digit_val_digit_char: "d < 10 \<Longrightarrow> digit_val (digit_char d) = d"
  by (simp add: digit_val_def digit_char_def)

lemma is_digit_digit_char: "d < 10 \<Longrightarrow> is_digit (digit_char d)"
  by (simp add: is_digit_def digit_char_def)

lemma digits_value_snoc: "digits_value acc (xs @ [c]) = 10 * digits_value acc xs + digit_val c"
  by (induction xs arbitrary: acc) simp_all

lemma digits_value_nat_to_dec: "digits_value 0 (nat_to_dec n) = n"
proof (induction n rule: nat_to_dec.induct)
  case (1 n)
  show ?case
  proof (cases "n < 10")
    case True
    then show ?thesis by (subst nat_to_dec.simps) (simp add: digit_val_digit_char)
  next
    case False
    with 1 have "digits_value 0 (nat_to_dec (n div 10)) = n div 10" by simp
    with False show ?thesis
      by (subst nat_to_dec.simps) (simp add: digits_value_snoc digit_val_digit_char)
  qed
qed

lemma list_all_nat_to_dec: "list_all is_digit (nat_to_dec n)"
proof (induction n rule: nat_to_dec.induct)
  case (1 n)
  show ?case
  proof (cases "n < 10")
    case True
    then show ?thesis by (subst nat_to_dec.simps) (simp add: is_digit_digit_char)
  next
    case False
    with 1 have "list_all is_digit (nat_to_dec (n div 10))" by simp
    with False show ?thesis
      by (subst nat_to_dec.simps) (simp add: is_digit_digit_char)
  qed
qed

lemma nat_to_dec_nonempty: "nat_to_dec n \<noteq> []"
  by (subst nat_to_dec.simps) simp

lemma hd_nat_to_dec: "is_digit (hd (nat_to_dec n))"
  using list_all_nat_to_dec [of n] nat_to_dec_nonempty [of n]
  by (cases "nat_to_dec n") simp_all

lemma is_digit_not_sign: "is_digit c \<Longrightarrow> c \<noteq> CHR ''+'' \<and> c \<noteq> CHR ''-''"
  by (auto simp: is_digit_def)

lemma ParseInt_int_to_dec:
  assumes "- (2 ^ 63) \<le> i" "i < 2 ^ 63"
  shows "ParseInt (int_to_dec i) = Inr (word_of_int i)"
proof (cases "i < 0")
  case True
  have "nat (- i) \<le> 2 ^ 63" using assms True by simp
  moreover have "- (word_of_nat (nat (- i)) :: int64) = word_of_int i"
    using True by simp
  ultimately show ?thesis using True
    by (simp add: ParseInt_def int_to_dec_def nat_to_dec_nonempty list_all_nat_to_dec
        digits_value_nat_to_dec Let_def)
next
  case False
  have s: "hd (nat_to_dec (nat i)) \<noteq> CHR ''+''" "hd (nat_to_dec (nat i)) \<noteq> CHR ''-''"
    using is_digit_not_sign [OF hd_nat_to_dec] by simp_all
  have "nat i < 2 ^ 63" using assms False by simp
  moreover have "(word_of_nat (nat i) :: int64) = word_of_int i"
    using False by simp
  ultimately show ?thesis using False s
    by (simp add: ParseInt_def int_to_dec_def nat_to_dec_nonempty list_all_nat_to_dec
        digits_value_nat_to_dec Let_def)
qed

lemma sint_word_of_int64:
  assumes "- (2 ^ 63) \<le> i" "i < 2 ^ 63"
  shows "sint (word_of_int i :: int64) = i"
  using assms by (simp add: sint_sbintrunc' signed_take_bit_int_eq_self)


lemma Memory_GetUsage_eq: "fst (Memory_GetUsage r k) = Inr (case usageMap r k of None \<Rightarrow> 0 | Some u \<Rightarrow> u)"
  by (simp add: memory_defs split: option.splits)

lemma Memory_AddUsage_map:
  "usageMap (snd (Memory_AddUsage r k n)) =
     (usageMap r)(k \<mapsto> (case usageMap r k of None \<Rightarrow> 0 | Some u \<Rightarrow> u) + n * CostPerTokenMicroDollars)"
  by (simp add: memory_defs Let_def split: option.splits)

lemma ParseInt_sample: "ParseInt ''9999999'' = Inr 9999999"
  by (simp add: ParseInt_def is_digit_def digit_val_def)

lemma Redis_GetUsage_unreachable:
  "fst (Redis_GetUsage r k) = Inr u \<Longrightarrow> reachable (client r)"
  by (auto simp: redis_defs split: if_splits)

lemma canonical_int64_ParseInt: "canonical_int64 v = Some old \<Longrightarrow> ParseInt v = Inr old"
  by (auto simp: canonical_int64_def split: sum.splits if_splits)

lemma Redis_AddUsage_mono:
  assumes n: "0 \<le> sint n" "sint n * 2 < 2 ^ 63"
    and u: "fst (Redis_GetUsage r k) = Inr u"
  shows "\<exists>u'. fst (Redis_GetUsage (snd (Redis_AddUsage r k n)) k) = Inr u' \<and> sint u \<le> sint u'"
proof -
  let ?key = "getUsageKey k"
  let ?cost = "n * CostPerTokenMicroDollars"
  have up: "reachable (client r)" using u by (rule Redis_GetUsage_unreachable)
  have cost: "sint ?cost = sint n * 2" "0 \<le> sint ?cost"
    using n by (simp_all add: CostPerTokenMicroDollars_def sint_mul_cost)
  have old: "(case kv (client r) ?key of None \<Rightarrow> Inr 0 | Some v \<Rightarrow> ParseInt v) = Inr u"
    using u up by (auto simp: redis_defs split: option.splits sum.splits)
  show ?thesis
  proof (cases "fst (redis_IncrBy (client r) ?key ?cost)")
    case False
    then have "snd (redis_IncrBy (client r) ?key ?cost) = client r"
      by (auto simp: redis_IncrBy_def split: option.splits if_splits)
    then have "fst (Redis_GetUsage (snd (Redis_AddUsage r k n)) k) = fst (Redis_GetUsage r k)"
      by (simp add: Redis_AddUsage_def Redis_GetUsage_def Let_def split_beta)
    with u show ?thesis by simp
  next
    case True
    then obtain old where o: "(case kv (client r) ?key of None \<Rightarrow> Some 0 | Some v \<Rightarrow> canonical_int64 v) = Some old"
      and rng: "- (2 ^ 63) \<le> sint old + sint ?cost" "sint old + sint ?cost < 2 ^ 63"
      and st: "snd (redis_IncrBy (client r) ?key ?cost)
                 = (client r)\<lparr>kv := (kv (client r))(?key \<mapsto> int_to_dec (sint old + sint ?cost))\<rparr>"
      by (auto simp: redis_IncrBy_def split: option.splits if_splits)
    have "old = u"
      using o old by (auto split: option.splits dest: canonical_int64_ParseInt)
    have "fst (Redis_GetUsage (snd (Redis_AddUsage r k n)) k)
            = Inr (word_of_int (sint old + sint ?cost))"
      using up by (simp add: Redis_AddUsage_def Redis_GetUsage_def redis_Get_def Let_def split_beta st
          ParseInt_int_to_dec [OF rng])
    moreover have "sint (word_of_int (sint old + sint ?cost) :: int64) = sint old + sint ?cost"
      by (rule sint_word_of_int64 [OF rng])
    ultimately show ?thesis using cost \<open>old = u\<close> by simp
  qed
qed

lemma Memory_AddUsage_mono:
  assumes n: "0 \<le> sint n" "sint n * 2 < 2 ^ 63"
    and u: "fst (Memory_GetUsage r k) = Inr u"
    and nov: "k' = k \<longrightarrow> sint u + sint n * 2 < 2 ^ 63"
  shows "\<exists>u'. fst (Memory_GetUsage (snd (Memory_AddUsage r k' n)) k) = Inr u' \<and> sint u \<le> sint u'"
proof (cases "k' = k")
  case False
  then show ?thesis using u by (simp add: Memory_GetUsage_eq Memory_AddUsage_map)
next
  case True
  have b: "u = (case usageMap r k of None \<Rightarrow> 0 | Some u \<Rightarrow> u)"
    using u by (simp add: Memory_GetUsage_eq)
  have "fst (Memory_GetUsage (snd (Memory_AddUsage r k' n)) k) = Inr (u + n * 2)"
    using True by (simp add: Memory_GetUsage_eq Memory_AddUsage_map b CostPerTokenMicroDollars_def)
  moreover have "sint (u + n * 2) = sint u + sint n * 2"
    using n nov True by (intro sint_add_cost) simp_all
  ultimately show ?thesis using n(1) by simp
qed

lemma getUsageKey_inject: "getUsageKey a = getUsageKey b \<Longrightarrow> a = b"
  by (simp add: getUsageKey_def)

lemma Redis_AddUsage_other_key:
  assumes "k' \<noteq> k"
  shows "fst (Redis_GetUsage (snd (Redis_AddUsage r k' n)) k) = fst (Redis_GetUsage r k)"
proof -
  have ne: "getUsageKey k' \<noteq> getUsageKey k"
    using assms getUsageKey_inject by blast
  have "redis_Get (snd (redis_IncrBy (client r) (getUsageKey k') c)) (getUsageKey k)
          = redis_Get (client r) (getUsageKey k)" for c
    using ne by (auto simp: redis_IncrBy_def redis_Get_def split: option.splits)
  then show ?thesis
    by (simp add: Redis_AddUsage_def Redis_GetUsage_def Let_def split_beta
        split: redis_reply.splits sum.splits)
qed

subsection \<open>The admission check\<close>

text \<open>
  Claim C4. The spend of a token is what \<^verbatim>\<open>GetUsage\<close> reads. In the in-process backend
  \<^verbatim>\<open>CheckLimit\<close> never fails and allows exactly when that spend is below
  \<^verbatim>\<open>MaxUsageMicroDollars\<close>; a token with no counter reads as 0 and is allowed. In the
  remote backend the same holds whenever the spend can be read, a key the store does not
  hold reads as 0 and is allowed, and a spend that cannot be read (store unreachable,
  value not an integer) is reported as the same error by both methods.
\<close>

theorem CheckLimit_allows_iff_spend_below_limit: 
  "(\<exists>u. fst (Memory_GetUsage m k) = Inr u \<and>
        fst (Memory_CheckLimit m k) = Inr (sint u < sint MaxUsageMicroDollars))
   \<and> (usageMap m k = None \<longrightarrow>
        fst (Memory_GetUsage m k) = Inr 0 \<and> fst (Memory_CheckLimit m k) = Inr True)
   \<and> (\<forall>u. fst (Redis_GetUsage r k) = Inr u \<longrightarrow>
        fst (Redis_CheckLimit r k) = Inr (sint u < sint MaxUsageMicroDollars))
   \<and> (\<forall>e. fst (Redis_GetUsage r k) = Inl e \<longrightarrow> fst (Redis_CheckLimit r k) = Inl e)
   \<and> (reachable (client r) \<and> kv (client r) (getUsageKey k) = None \<longrightarrow>
        fst (Redis_GetUsage r k) = Inr 0 \<and> fst (Redis_CheckLimit r k) = Inr True)"
proof -
  have mem: "\<exists>u. fst (Memory_GetUsage m k) = Inr u \<and>
        fst (Memory_CheckLimit m k) = Inr (sint u < sint MaxUsageMicroDollars)"
    by (cases "usageMap m k") (simp_all add: memory_defs MaxUsageMicroDollars_def)
  have absent: "usageMap m k = None \<longrightarrow>
        fst (Memory_GetUsage m k) = Inr 0 \<and> fst (Memory_CheckLimit m k) = Inr True"
    by (simp add: memory_defs)
  have red: "\<forall>u. fst (Redis_GetUsage r k) = Inr u \<longrightarrow>
        fst (Redis_CheckLimit r k) = Inr (sint u < sint MaxUsageMicroDollars)"
    by (auto simp: redis_defs MaxUsageMicroDollars_def split: option.splits sum.splits if_splits)
  have rerr: "\<forall>e. fst (Redis_GetUsage r k) = Inl e \<longrightarrow> fst (Redis_CheckLimit r k) = Inl e"
    by (auto simp: redis_defs split: option.splits sum.splits if_splits)
  have rabs: "reachable (client r) \<and> kv (client r) (getUsageKey k) = None \<longrightarrow>
        fst (Redis_GetUsage r k) = Inr 0 \<and> fst (Redis_CheckLimit r k) = Inr True"
    by (simp add: redis_defs)
  from mem absent red rerr rabs show ?thesis by blast
qed

theorem CheckLimit_allows_iff_spend_below_limit_witness:
  "fst (Memory_CheckLimit \<lparr>usageMap = [''k'' \<mapsto> 10000000]\<rparr> ''k'') = Inr False
   \<and> fst (Memory_CheckLimit \<lparr>usageMap = [''k'' \<mapsto> 9999999]\<rparr> ''k'') = Inr True
   \<and> fst (Memory_CheckLimit NewMemoryCircuitBreaker ''k'') = Inr True
   \<and> fst (Redis_CheckLimit \<lparr>client = \<lparr>kv = [getUsageKey ''k'' \<mapsto> ''9999999''], reachable = True\<rparr>\<rparr> ''k'') = Inr True
   \<and> fst (Redis_CheckLimit \<lparr>client = \<lparr>kv = Map.empty, reachable = True\<rparr>\<rparr> ''k'') = Inr True"
  using CheckLimit_allows_iff_spend_below_limit [of "\<lparr>usageMap = [''k'' \<mapsto> 10000000]\<rparr>" "''k''"
        "\<lparr>client = \<lparr>kv = [getUsageKey ''k'' \<mapsto> ''9999999''], reachable = True\<rparr>\<rparr>"]
    CheckLimit_allows_iff_spend_below_limit [of "\<lparr>usageMap = [''k'' \<mapsto> 9999999]\<rparr>" "''k''"
        "\<lparr>client = \<lparr>kv = Map.empty, reachable = True\<rparr>\<rparr>"]
    CheckLimit_allows_iff_spend_below_limit [of NewMemoryCircuitBreaker "''k''" "\<lparr>client = \<lparr>kv = Map.empty, reachable = True\<rparr>\<rparr>"]
  by (simp add: memory_defs redis_defs NewMemoryCircuitBreaker_def MaxUsageMicroDollars_def ParseInt_sample)

subsection \<open>Recording usage\<close>

text \<open>
  Claim C5, as amended. For a token count \<open>n \<ge> 0\<close> whose cost \<open>n * 2\<close> and whose new
  total both stay below \<open>2 ^ 63\<close>, \<^verbatim>\<open>AddUsage\<close> followed by \<^verbatim>\<open>GetUsage\<close> reads a spend
  exactly \<open>n * CostPerTokenMicroDollars\<close> above the spend read before. The constants are 2
  and 10,000,000; a fresh caller is allowed, and after 5,000,000 tokens its spend is exactly
  10,000,000 and it is denied.
\<close>

theorem AddUsage_then_GetUsage_adds_cost:
  "(0 \<le> sint n \<and> sint n * sint CostPerTokenMicroDollars < 2 ^ 63 \<and>
    fst (Memory_GetUsage r t) = Inr before \<and>
    sint before + sint n * sint CostPerTokenMicroDollars < 2 ^ 63 \<longrightarrow>
      (\<exists>after. fst (Memory_GetUsage (snd (Memory_AddUsage r t n)) t) = Inr after \<and>
         sint after = sint before + sint n * sint CostPerTokenMicroDollars))
   \<and> sint CostPerTokenMicroDollars = 2 \<and> sint MaxUsageMicroDollars = 10000000
   \<and> fst (Memory_CheckLimit NewMemoryCircuitBreaker t) = Inr True
   \<and> fst (Memory_GetUsage (snd (Memory_AddUsage NewMemoryCircuitBreaker t 5000000)) t) = Inr 10000000
   \<and> fst (Memory_CheckLimit (snd (Memory_AddUsage NewMemoryCircuitBreaker t 5000000)) t) = Inr False"
proof -
  have step: "\<exists>after. fst (Memory_GetUsage (snd (Memory_AddUsage r t n)) t) = Inr after \<and>
         sint after = sint before + sint n * sint CostPerTokenMicroDollars"
    if h: "0 \<le> sint n" "sint n * sint CostPerTokenMicroDollars < 2 ^ 63"
      "fst (Memory_GetUsage r t) = Inr before"
      "sint before + sint n * sint CostPerTokenMicroDollars < 2 ^ 63"
  proof -
    have b: "before = (case usageMap r t of None \<Rightarrow> 0 | Some u \<Rightarrow> u)"
      using h(3) by (simp add: Memory_GetUsage_eq)
    have "fst (Memory_GetUsage (snd (Memory_AddUsage r t n)) t) = Inr (before + n * 2)"
      by (simp add: Memory_GetUsage_eq Memory_AddUsage_map b CostPerTokenMicroDollars_def)
    moreover have "sint (before + n * 2) = sint before + sint n * 2"
      using h(1,2,4) by (intro sint_add_cost) (simp_all add: CostPerTokenMicroDollars_def)
    ultimately show ?thesis by (simp add: CostPerTokenMicroDollars_def)
  qed
  have c1: "fst (Memory_CheckLimit NewMemoryCircuitBreaker t) = Inr True"
    by (simp add: memory_defs NewMemoryCircuitBreaker_def)
  have c2: "fst (Memory_GetUsage (snd (Memory_AddUsage NewMemoryCircuitBreaker t 5000000)) t) = Inr 10000000"
    by (simp add: memory_defs NewMemoryCircuitBreaker_def CostPerTokenMicroDollars_def)
  have c3: "fst (Memory_CheckLimit (snd (Memory_AddUsage NewMemoryCircuitBreaker t 5000000)) t) = Inr False"
    by (simp add: memory_defs NewMemoryCircuitBreaker_def CostPerTokenMicroDollars_def
        MaxUsageMicroDollars_def)
  have k: "sint CostPerTokenMicroDollars = 2" "sint MaxUsageMicroDollars = 10000000"
    by (simp_all add: CostPerTokenMicroDollars_def MaxUsageMicroDollars_def)
  from step c1 c2 c3 k show ?thesis by blast
qed

theorem AddUsage_then_GetUsage_adds_cost_witness:
  "fst (Memory_GetUsage (snd (Memory_AddUsage \<lparr>usageMap = [''t'' \<mapsto> 7]\<rparr> ''t'' 1000)) ''t'') = Inr 2007"
  using AddUsage_then_GetUsage_adds_cost [of 1000 "\<lparr>usageMap = [''t'' \<mapsto> 7]\<rparr>" "''t''" 7]
  by (simp add: memory_defs CostPerTokenMicroDollars_def)

text \<open>
  The claim as stated, for every non-negative \<open>n\<close>, fails where the 64-bit product wraps:
  \<open>2 ^ 62\<close> tokens on a fresh caller leave a spend of \<open>- 2 ^ 63\<close>, not \<open>2 ^ 63\<close>, and
  the caller is still allowed.
\<close>

theorem AddUsage_then_GetUsage_overflow:
  "0 \<le> sint (4611686018427387904 :: int64)
   \<and> fst (Memory_GetUsage NewMemoryCircuitBreaker ''t'') = Inr 0
   \<and> fst (Memory_GetUsage (snd (Memory_AddUsage NewMemoryCircuitBreaker ''t'' 4611686018427387904)) ''t'')
       = Inr (- 9223372036854775808)
   \<and> sint (- 9223372036854775808 :: int64)
       \<noteq> sint (0 :: int64) + sint (4611686018427387904 :: int64) * sint CostPerTokenMicroDollars
   \<and> fst (Memory_CheckLimit (snd (Memory_AddUsage NewMemoryCircuitBreaker ''t'' 4611686018427387904)) ''t'')
       = Inr True"
  by (simp add: memory_defs NewMemoryCircuitBreaker_def CostPerTokenMicroDollars_def
      MaxUsageMicroDollars_def)

text \<open>
  Claim C6, as amended. \<^verbatim>\<open>CheckLimit\<close> and \<^verbatim>\<open>GetUsage\<close> on any token leave every
  token's spend as it was. \<^verbatim>\<open>AddUsage\<close> with a token count \<open>n \<ge> 0\<close> whose cost does not
  wrap never lowers a spend that could be read before: in the in-process backend provided
  the new total of the token added to stays below \<open>2 ^ 63\<close>, in the remote backend always
  (the store refuses a sum outside 64 bits and keeps the old value).
\<close>

theorem spend_never_decreases:
  assumes "0 \<le> sint n" and "sint n * sint CostPerTokenMicroDollars < 2 ^ 63"
  shows
    "fst (Memory_GetUsage (snd (Memory_CheckLimit m k')) k) = fst (Memory_GetUsage m k)
     \<and> fst (Memory_GetUsage (snd (Memory_GetUsage m k')) k) = fst (Memory_GetUsage m k)
     \<and> (\<forall>u. fst (Memory_GetUsage m k) = Inr u \<and>
             (k' = k \<longrightarrow> sint u + sint n * sint CostPerTokenMicroDollars < 2 ^ 63) \<longrightarrow>
           (\<exists>u'. fst (Memory_GetUsage (snd (Memory_AddUsage m k' n)) k) = Inr u' \<and>
                 sint u \<le> sint u'))
     \<and> fst (Redis_GetUsage (snd (Redis_CheckLimit r k')) k) = fst (Redis_GetUsage r k)
     \<and> fst (Redis_GetUsage (snd (Redis_GetUsage r k')) k) = fst (Redis_GetUsage r k)
     \<and> (\<forall>u. fst (Redis_GetUsage r k) = Inr u \<longrightarrow>
           (\<exists>u'. fst (Redis_GetUsage (snd (Redis_AddUsage r k' n)) k) = Inr u' \<and>
                 sint u \<le> sint u'))"
proof -
  have n2: "sint n * 2 < 2 ^ 63"
    using assms(2) by (simp add: CostPerTokenMicroDollars_def)
  have m1: "snd (Memory_CheckLimit m k') = m"
    by (simp add: memory_defs split: option.splits)
  have m2: "snd (Memory_GetUsage m k') = m"
    by (simp add: memory_defs split: option.splits)
  have m3: "\<exists>u'. fst (Memory_GetUsage (snd (Memory_AddUsage m k' n)) k) = Inr u' \<and> sint u \<le> sint u'"
    if "fst (Memory_GetUsage m k) = Inr u"
      and "k' = k \<longrightarrow> sint u + sint n * sint CostPerTokenMicroDollars < 2 ^ 63" for u
    using that assms(1) n2
    by (intro Memory_AddUsage_mono) (simp_all add: CostPerTokenMicroDollars_def)
  have r1: "snd (Redis_CheckLimit r k') = r"
    by (simp add: redis_defs split: option.splits sum.splits)
  have r2: "snd (Redis_GetUsage r k') = r"
    by (simp add: redis_defs split: option.splits sum.splits)
  have r3: "\<exists>u'. fst (Redis_GetUsage (snd (Redis_AddUsage r k' n)) k) = Inr u' \<and> sint u \<le> sint u'"
    if u: "fst (Redis_GetUsage r k) = Inr u" for u
  proof (cases "k' = k")
    case True
    then show ?thesis using Redis_AddUsage_mono [OF assms(1) n2 u] by simp
  next
    case False
    then show ?thesis using u by (simp add: Redis_AddUsage_other_key)
  qed
  show ?thesis
    using m3 r3 by (simp add: m1 m2 r1 r2)
qed

lemma Redis_AddUsage_sample:
  "fst (Redis_GetUsage (snd (Redis_AddUsage
      \<lparr>client = \<lparr>kv = [getUsageKey ''t'' \<mapsto> ''9999999''], reachable = True\<rparr>\<rparr> ''t'' 1000)) ''t'')
    = Inr 10001999"
proof -
  have a: "int_to_dec 10001999 = ''10001999''" "int_to_dec 9999999 = ''9999999''"
    by (simp_all add: int_to_dec_def nat_to_dec.simps digit_char_def char_of_def bit_Suc_0_iff)
  have b: "canonical_int64 ''9999999'' = Some 9999999"
    by (simp add: canonical_int64_def ParseInt_sample a)
  have c: "ParseInt ''10001999'' = Inr 10001999"
    by (simp add: ParseInt_def is_digit_def digit_val_def)
  show ?thesis
    by (simp add: redis_defs a b c CostPerTokenMicroDollars_def)
qed

theorem spend_never_decreases_witness:
  "fst (Memory_GetUsage \<lparr>usageMap = [''t'' \<mapsto> 7]\<rparr> ''t'') = Inr 7
   \<and> fst (Memory_GetUsage (snd (Memory_AddUsage \<lparr>usageMap = [''t'' \<mapsto> 7]\<rparr> ''t'' 1000)) ''t'') = Inr 2007
   \<and> sint (7 :: int64) \<le> sint (2007 :: int64)
   \<and> fst (Redis_GetUsage
        \<lparr>client = \<lparr>kv = [getUsageKey ''t'' \<mapsto> ''9999999''], reachable = True\<rparr>\<rparr> ''t'') = Inr 9999999
   \<and> fst (Redis_GetUsage (snd (Redis_AddUsage
        \<lparr>client = \<lparr>kv = [getUsageKey ''t'' \<mapsto> ''9999999''], reachable = True\<rparr>\<rparr> ''t'' 1000)) ''t'')
       = Inr 10001999
   \<and> sint (9999999 :: int64) \<le> sint (10001999 :: int64)"
proof -
  have g1: "fst (Memory_GetUsage \<lparr>usageMap = [''t'' \<mapsto> 7]\<rparr> ''t'') = Inr 7"
    by (simp add: memory_defs)
  have g2: "fst (Redis_GetUsage
      \<lparr>client = \<lparr>kv = [getUsageKey ''t'' \<mapsto> ''9999999''], reachable = True\<rparr>\<rparr> ''t'') = Inr 9999999"
    by (simp add: redis_defs ParseInt_sample)
  have g3: "fst (Memory_GetUsage (snd (Memory_AddUsage \<lparr>usageMap = [''t'' \<mapsto> 7]\<rparr> ''t'' 1000)) ''t'') = Inr 2007"
    by (simp add: memory_defs CostPerTokenMicroDollars_def)
  show ?thesis
    using spend_never_decreases [of 1000 "\<lparr>usageMap = [''t'' \<mapsto> 7]\<rparr>" "''t''" "''t''"
        "\<lparr>client = \<lparr>kv = [getUsageKey ''t'' \<mapsto> ''9999999''], reachable = True\<rparr>\<rparr>"]
    by (simp add: g1 g2 g3 Redis_AddUsage_sample CostPerTokenMicroDollars_def)
qed

text \<open>
  The claim as stated, for any token count, fails for a negative count, for a count whose
  cost wraps, and for a total that wraps: each lowers the spend read by \<^verbatim>\<open>GetUsage\<close>.
\<close>

theorem AddUsage_can_decrease_spend:
  "fst (Memory_GetUsage NewMemoryCircuitBreaker ''t'') = Inr 0
   \<and> fst (Memory_GetUsage (snd (Memory_AddUsage NewMemoryCircuitBreaker ''t'' (- 1))) ''t'') = Inr (- 2)
   \<and> sint (- 2 :: int64) < sint (0 :: int64)
   \<and> fst (Memory_GetUsage (snd (Memory_AddUsage NewMemoryCircuitBreaker ''t'' 4611686018427387904)) ''t'')
        = Inr (- 9223372036854775808)
   \<and> sint (- 9223372036854775808 :: int64) < sint (0 :: int64)
   \<and> fst (Memory_GetUsage \<lparr>usageMap = [''t'' \<mapsto> 9223372036854775806]\<rparr> ''t'') = Inr 9223372036854775806
   \<and> fst (Memory_GetUsage (snd (Memory_AddUsage \<lparr>usageMap = [''t'' \<mapsto> 9223372036854775806]\<rparr> ''t'' 1)) ''t'')
        = Inr (- 9223372036854775808)
   \<and> sint (- 9223372036854775808 :: int64) < sint (9223372036854775806 :: int64)"
  by (simp add: memory_defs NewMemoryCircuitBreaker_def CostPerTokenMicroDollars_def)

subsection \<open>Frame and failure behaviour of the in-process backend\<close>

text \<open>
  Claim C9. In the in-process backend \<^verbatim>\<open>CheckLimit\<close> and \<^verbatim>\<open>GetUsage\<close> return the
  breaker unchanged, so the spend of every token is what it was, and \<^verbatim>\<open>AddUsage\<close> on
  \<open>k1\<close> leaves the counter and the spend of every other token \<open>k2\<close> unchanged.
\<close>

theorem Memory_reads_and_other_keys_unchanged:
  "snd (Memory_CheckLimit r k1) = r
   \<and> snd (Memory_GetUsage r k1) = r
   \<and> fst (Memory_GetUsage (snd (Memory_CheckLimit r k1)) k2) = fst (Memory_GetUsage r k2)
   \<and> fst (Memory_GetUsage (snd (Memory_GetUsage r k1)) k2) = fst (Memory_GetUsage r k2)
   \<and> (k2 \<noteq> k1 \<longrightarrow>
        fst (Memory_GetUsage (snd (Memory_AddUsage r k1 n)) k2) = fst (Memory_GetUsage r k2) \<and>
        usageMap (snd (Memory_AddUsage r k1 n)) k2 = usageMap r k2)"
proof -
  have a: "snd (Memory_CheckLimit r k1) = r"
    by (simp add: memory_defs split: option.splits)
  have b: "snd (Memory_GetUsage r k1) = r"
    by (simp add: memory_defs split: option.splits)
  have c: "k2 \<noteq> k1 \<longrightarrow>
        fst (Memory_GetUsage (snd (Memory_AddUsage r k1 n)) k2) = fst (Memory_GetUsage r k2) \<and>
        usageMap (snd (Memory_AddUsage r k1 n)) k2 = usageMap r k2"
    by (simp add: Memory_GetUsage_eq Memory_AddUsage_map)
  from a b c show ?thesis by simp
qed

theorem Memory_reads_and_other_keys_unchanged_witness:
  "fst (Memory_GetUsage (snd (Memory_AddUsage \<lparr>usageMap = [''b'' \<mapsto> 7]\<rparr> ''a'' 1000)) ''b'') = Inr 7
   \<and> fst (Memory_GetUsage (snd (Memory_CheckLimit \<lparr>usageMap = [''b'' \<mapsto> 7]\<rparr> ''a'')) ''b'') = Inr 7"
  using Memory_reads_and_other_keys_unchanged [of "\<lparr>usageMap = [''b'' \<mapsto> 7]\<rparr>" "''a''" "''b''" 1000]
  by (simp add: memory_defs)

text \<open>
  Claim C10. For every breaker, token and token count, the three methods of the in-process
  backend return a nil error.
\<close>

theorem Memory_operations_return_no_error:
  "(\<exists>allowed. fst (Memory_CheckLimit r k) = Inr allowed)
   \<and> fst (Memory_AddUsage r k n) = None
   \<and> (\<exists>usage. fst (Memory_GetUsage r k) = Inr usage)"
  by (auto simp: memory_defs Let_def split: option.splits)

section \<open>Properties of the stream relay\<close>

subsection \<open>The scanner and the loop\<close>

lemma dropCR_id: "l = [] \<or> last l \<noteq> CR \<Longrightarrow> dropCR l = l"
  by (auto simp: dropCR_def)

lemma scan_lines_line:
  "LF \<notin> set l \<Longrightarrow> length cur + length l < mx \<Longrightarrow>
   scan_lines mx cur (l @ LF # rest) =
     (dropCR (cur @ l) # fst (scan_lines mx [] rest), snd (scan_lines mx [] rest))"
proof (induction l arbitrary: cur)
  case Nil
  then show ?case by (simp add: split_beta)
next
  case (Cons c l)
  from Cons.prems have "c \<noteq> LF" "LF \<notin> set l" "\<not> mx \<le> Suc (length cur)"
    "length (cur @ [c]) + length l < mx" by auto
  with Cons.IH [of "cur @ [c]"] show ?case by simp
qed

lemma scan_lines_terminated:
  "\<forall>l \<in> set ls. LF \<notin> set l \<and> length l < mx \<Longrightarrow>
   scan_lines mx [] (concat (map (\<lambda>l. l @ [LF]) ls) @ rest) =
     (map dropCR ls @ fst (scan_lines mx [] rest), snd (scan_lines mx [] rest))"
proof (induction ls)
  case Nil
  then show ?case by simp
next
  case (Cons l ls)
  then have "LF \<notin> set l" "length [] + length l < mx" by simp_all
  from scan_lines_line [OF this, of "concat (map (\<lambda>l. l @ [LF]) ls) @ rest"] Cons
  show ?case by simp
qed

lemma scan_lines_too_long:
  "LF \<notin> set l \<Longrightarrow> l \<noteq> [] \<Longrightarrow> length cur + length l = mx \<Longrightarrow> rest \<noteq> [] \<Longrightarrow>
   scan_lines mx cur (l @ rest) = ([], True)"
proof (induction l arbitrary: cur)
  case Nil
  then show ?case by simp
next
  case (Cons c l)
  show ?case
  proof (cases "mx \<le> Suc (length cur)")
    case True
    with Cons.prems have "l = []" "c \<noteq> LF" by auto
    with True Cons.prems show ?thesis by simp
  next
    case False
    with Cons.prems have "l \<noteq> []" "LF \<notin> set l" "length (cur @ [c]) + length l = mx" "c \<noteq> LF"
      by auto
    with Cons.IH [of "cur @ [c]"] False Cons.prems(4) show ?thesis by simp
  qed
qed

lemma relay_loop_body:
  "w_body (fst (relay_loop unm ts w tc)) = w_body w @ concat (map (\<lambda>t. t @ [LF]) ts)"
  by (induction ts arbitrary: w tc)
    (simp_all add: Let_def Write_def WriteHeader_def split: option.splits)

lemma relay_loop_tokenCount:
  "snd (relay_loop unm ts w tc) =
     (if List.map_filter (usage_of_line unm) ts = [] then tc
      else last (List.map_filter (usage_of_line unm) ts))"
proof (induction ts arbitrary: w tc)
  case Nil
  then show ?case by (simp add: List.map_filter_simps)
next
  case (Cons t ts)
  then show ?case
    by (cases "usage_of_line unm t") (simp_all add: Let_def List.map_filter_simps)
qed

lemma copy_headers_body [simp]: "w_body (copy_headers w hs) = w_body w"
proof -
  have inner: "w_body (foldl (\<lambda>w2 v. Header_Add w2 k v) w1 vv) = w_body w1" for k vv w1
    by (induction vv arbitrary: w1) (simp_all add: Header_Add_def)
  show ?thesis unfolding copy_headers_def
    by (induction hs arbitrary: w) (simp_all add: inner split_beta)
qed

lemma copy_headers_flusher [simp]: "w_flusher (copy_headers w hs) = w_flusher w"
proof -
  have inner: "w_flusher (foldl (\<lambda>w2 v. Header_Add w2 k v) w1 vv) = w_flusher w1" for k vv w1
    by (induction vv arbitrary: w1) (simp_all add: Header_Add_def)
  show ?thesis unfolding copy_headers_def
    by (induction hs arbitrary: w) (simp_all add: inner split_beta)
qed

lemma WriteHeader_fields [simp]:
  "w_body (WriteHeader w c) = w_body w" "w_flusher (WriteHeader w c) = w_flusher w"
  by (simp_all add: WriteHeader_def split: option.splits)

lemma StreamResponse_body:
  "w_body (out_w (StreamResponse unm w resp apiKey chan)) =
     (if w_flusher w
      then w_body w @ concat (map (\<lambda>t. t @ [LF]) (fst (scan_lines maxScanTokenSize [] (Body resp))))
      else w_body w)"
  by (simp add: StreamResponse_def Let_def split_beta relay_loop_body split: option.splits)

lemma StreamResponse_submitted:
  "out_submitted (StreamResponse unm w resp apiKey chan) =
     (let figures = List.map_filter (usage_of_line unm) (fst (scan_lines maxScanTokenSize [] (Body resp)))
      in if w_flusher w \<and> chan \<noteq> None \<and> apiKey \<noteq> [] \<and> figures \<noteq> [] \<and> 0 < sint (last figures)
         then [\<lparr>APIKey = apiKey, TokenCount = last figures\<rparr>] else [])"
  by (auto simp: StreamResponse_def Let_def split_beta relay_loop_tokenCount split: option.splits)

lemma scan_long_line:
  "scan_lines maxScanTokenSize [] (replicate 1048576 (CHR ''a'') @ [LF]) = ([], True)"
proof (rule scan_lines_too_long)
  show "LF \<notin> set (replicate 1048576 (CHR ''a''))" by (simp add: LF_def)
  show "replicate 1048576 (CHR ''a'') \<noteq> []" by simp
  show "length ([] :: string) + length (replicate 1048576 (CHR ''a'')) = maxScanTokenSize"
    by (simp add: maxScanTokenSize_def)
  show "[LF] \<noteq> []" by simp
qed

lemma scan_usage_stream:
  \<open>fst (scan_lines maxScanTokenSize []
      example_usage_stream)
    = [''data: {"usage":{"prompt_tokens":10,"completion_tokens":8,"total_tokens":18}}'', [],
       ''data: [DONE]'', []]\<close>
  using scan_lines_terminated [of
      \<open>[''data: {"usage":{"prompt_tokens":10,"completion_tokens":8,"total_tokens":18}}'', [],
        ''data: [DONE]'', []]\<close> maxScanTokenSize "[]"]
  by (simp add: example_usage_stream_def maxScanTokenSize_def LF_def CR_def dropCR_def)

lemma scan_zero_usage_stream:
  \<open>fst (scan_lines maxScanTokenSize []
      example_zero_usage_stream)
    = [''data: {"usage":{"prompt_tokens":0,"completion_tokens":0,"total_tokens":0}}'', [],
       ''data: [DONE]'', []]\<close>
  using scan_lines_terminated [of
      \<open>[''data: {"usage":{"prompt_tokens":0,"completion_tokens":0,"total_tokens":0}}'', [],
        ''data: [DONE]'', []]\<close> maxScanTokenSize "[]"]
  by (simp add: example_zero_usage_stream_def maxScanTokenSize_def LF_def CR_def dropCR_def)

lemma usage_of_example_lines:
  \<open>usage_of_line example_Unmarshal
      ''data: {"usage":{"prompt_tokens":10,"completion_tokens":8,"total_tokens":18}}'' = Some 18\<close>
  \<open>usage_of_line example_Unmarshal
      ''data: {"usage":{"prompt_tokens":0,"completion_tokens":0,"total_tokens":0}}'' = Some 0\<close>
  \<open>usage_of_line example_Unmarshal [] = None\<close>
  \<open>usage_of_line example_Unmarshal ''data: [DONE]'' = None\<close>
  by (simp_all add: usage_of_line_def bytes_HasPrefix_def bytes_TrimPrefix_def example_Unmarshal_def)

subsection \<open>Transparency of the relay\<close>

text \<open>
  Claim C1, as amended. When the caller's writer supports flushing and the upstream body is
  a sequence of lines each ended by a line feed, none ending in a carriage return and each
  shorter than the scanner's ceiling of 1 MiB, the bytes written to the caller are exactly
  the bytes of the body, whatever the lines hold and whatever the decoder makes of them.
  When such lines are followed by 1 MiB of bytes with no line feed among them and the body
  goes on after these, the relay stops and the caller has received exactly the lines
  before them. A writer that cannot flush receives no body bytes.
\<close>

theorem relay_delivers_upstream_bytes:
  assumes "\<forall>l \<in> set ls. LF \<notin> set l \<and> (l = [] \<or> last l \<noteq> CR) \<and> length l < maxScanTokenSize"
  shows
    "(w_flusher w \<and> Body resp = concat (map (\<lambda>l. l @ [LF]) ls) \<longrightarrow>
        w_body (out_w (StreamResponse unm w resp apiKey chan)) = w_body w @ Body resp)
     \<and> (w_flusher w \<and> Body resp = concat (map (\<lambda>l. l @ [LF]) ls) @ long @ rest \<and>
          LF \<notin> set long \<and> length long = maxScanTokenSize \<and> rest \<noteq> [] \<longrightarrow>
        w_body (out_w (StreamResponse unm w resp apiKey chan))
          = w_body w @ concat (map (\<lambda>l. l @ [LF]) ls))
     \<and> (\<not> w_flusher w \<longrightarrow>
        w_body (out_w (StreamResponse unm w resp apiKey chan)) = w_body w)"
proof -
  have fits: "\<forall>l \<in> set ls. LF \<notin> set l \<and> length l < maxScanTokenSize"
    using assms by blast
  have keep: "map dropCR ls = ls"
    using assms by (intro map_idI) (simp add: dropCR_id)
  have whole: "fst (scan_lines maxScanTokenSize [] (concat (map (\<lambda>l. l @ [LF]) ls))) = ls"
    using scan_lines_terminated [OF fits, of "[]"] keep by simp
  have cut: "fst (scan_lines maxScanTokenSize [] (concat (map (\<lambda>l. l @ [LF]) ls) @ long @ rest)) = ls"
    if "LF \<notin> set long" "length long = maxScanTokenSize" "rest \<noteq> []"
  proof -
    have "long \<noteq> []" using that(2) by (auto simp: maxScanTokenSize_def)
    then have "scan_lines maxScanTokenSize [] (long @ rest) = ([], True)"
      using that by (intro scan_lines_too_long) simp_all
    then show ?thesis
      using scan_lines_terminated [OF fits, of "long @ rest"] keep by simp
  qed
  show ?thesis
    using whole cut by (simp add: StreamResponse_body)
qed

theorem relay_delivers_upstream_bytes_witness:
  "w_body (out_w (StreamResponse example_Unmarshal
      \<lparr>w_headers = [], w_status = None, w_body = [], w_flusher = True\<rparr>
      \<lparr>StatusCode = 200, Header = [], Body = ''data: x'' @ [LF] @ [LF] @ ''data: [DONE]'' @ [LF]\<rparr>
      ''k'' None))
    = ''data: x'' @ [LF] @ [LF] @ ''data: [DONE]'' @ [LF]"
  using relay_delivers_upstream_bytes [of "[''data: x'', [], ''data: [DONE]'']"
      "\<lparr>w_headers = [], w_status = None, w_body = [], w_flusher = True\<rparr>"
      "\<lparr>StatusCode = 200, Header = [], Body = ''data: x'' @ [LF] @ [LF] @ ''data: [DONE]'' @ [LF]\<rparr>"
      example_Unmarshal "''k''" None]
  by (simp add: LF_def CR_def maxScanTokenSize_def)

text \<open>
  The claim as stated, for every upstream body, fails in four ways: a line ending in
  carriage return and line feed reaches the caller without the carriage return; a last
  line with no line feed reaches the caller with one; a line of 1 MiB and its line feed
  end the relay before anything of the line is written; a writer that cannot flush
  receives nothing.
\<close>

theorem relay_changes_bytes:
  "w_body (out_w (StreamResponse example_Unmarshal
      \<lparr>w_headers = [], w_status = None, w_body = [], w_flusher = True\<rparr>
      \<lparr>StatusCode = 200, Header = [], Body = ''data: x'' @ [CR, LF]\<rparr> ''k'' None))
     = ''data: x'' @ [LF]
   \<and> ''data: x'' @ [LF] \<noteq> ''data: x'' @ [CR, LF]
   \<and> w_body (out_w (StreamResponse example_Unmarshal
      \<lparr>w_headers = [], w_status = None, w_body = [], w_flusher = True\<rparr>
      \<lparr>StatusCode = 200, Header = [], Body = ''data: x''\<rparr> ''k'' None))
     = ''data: x'' @ [LF]
   \<and> ''data: x'' @ [LF] \<noteq> ''data: x''
   \<and> w_body (out_w (StreamResponse example_Unmarshal
      \<lparr>w_headers = [], w_status = None, w_body = [], w_flusher = True\<rparr>
      \<lparr>StatusCode = 200, Header = [], Body = replicate 1048576 (CHR ''a'') @ [LF]\<rparr> ''k'' None))
     = []
   \<and> replicate 1048576 (CHR ''a'') @ [LF] \<noteq> []
   \<and> w_body (out_w (StreamResponse example_Unmarshal
      \<lparr>w_headers = [], w_status = None, w_body = [], w_flusher = False\<rparr>
      \<lparr>StatusCode = 200, Header = [], Body = ''data: x'' @ [LF]\<rparr> ''k'' None))
     = []
   \<and> ''data: x'' @ [LF] \<noteq> []"
proof -
  have crlf: "w_body (out_w (StreamResponse example_Unmarshal
      \<lparr>w_headers = [], w_status = None, w_body = [], w_flusher = True\<rparr>
      \<lparr>StatusCode = 200, Header = [], Body = ''data: x'' @ [CR, LF]\<rparr> ''k'' None))
     = ''data: x'' @ [LF]"
    by (simp add: StreamResponse_body maxScanTokenSize_def dropCR_def LF_def CR_def)
  have unterminated: "w_body (out_w (StreamResponse example_Unmarshal
      \<lparr>w_headers = [], w_status = None, w_body = [], w_flusher = True\<rparr>
      \<lparr>StatusCode = 200, Header = [], Body = ''data: x''\<rparr> ''k'' None))
     = ''data: x'' @ [LF]"
    by (simp add: StreamResponse_body maxScanTokenSize_def dropCR_def LF_def CR_def)
  have long: "w_body (out_w (StreamResponse example_Unmarshal
      \<lparr>w_headers = [], w_status = None, w_body = [], w_flusher = True\<rparr>
      \<lparr>StatusCode = 200, Header = [], Body = replicate 1048576 (CHR ''a'') @ [LF]\<rparr> ''k'' None))
     = []"
    unfolding StreamResponse_body
    by (simp only: scan_long_line http_response.simps response_writer.simps
        if_True fst_conv list.map concat.simps append_Nil)
  have noflush: "w_body (out_w (StreamResponse example_Unmarshal
      \<lparr>w_headers = [], w_status = None, w_body = [], w_flusher = False\<rparr>
      \<lparr>StatusCode = 200, Header = [], Body = ''data: x'' @ [LF]\<rparr> ''k'' None))
     = []"
    by (simp add: StreamResponse_body)
  have ne: "''data: x'' @ [LF] \<noteq> ''data: x'' @ [CR, LF]" "''data: x'' @ [LF] \<noteq> ''data: x''"
    "replicate 1048576 (CHR ''a'') @ [LF] \<noteq> []" "''data: x'' @ [LF] \<noteq> []"
    by (simp_all add: LF_def CR_def)
  from crlf unterminated long noflush ne show ?thesis by (intro conjI)
qed

subsection \<open>The usage event\<close>

text \<open>
  Claim C2, as amended. The usage figures of a stream are the values its lines assign to
  \<^verbatim>\<open>tokenCount\<close>, in order. With a writer that supports flushing and a usage channel,
  exactly one usage record is offered to the channel at the end of the stream when the
  caller token is non-empty and the last usage figure is positive, and it carries the
  caller token and that last figure. No record is offered when the stream has no usage
  figure, when the caller token is empty, when the last figure is zero or negative, when
  the writer cannot flush or when there is no channel. Never more than one record is
  offered.
\<close>

theorem usage_event_carries_last_figure:
  \<open>(let figures = List.map_filter (usage_of_line unm)
                     (fst (scan_lines maxScanTokenSize [] (Body resp)));
         submitted = out_submitted (StreamResponse unm w resp apiKey chan)
     in (w_flusher w \<and> chan \<noteq> None \<and> apiKey \<noteq> [] \<and> figures \<noteq> [] \<and> 0 < sint (last figures) \<longrightarrow>
           submitted = [\<lparr>APIKey = apiKey, TokenCount = last figures\<rparr>])
        \<and> (figures = [] \<or> apiKey = [] \<longrightarrow> submitted = [])
        \<and> (figures \<noteq> [] \<and> sint (last figures) \<le> 0 \<longrightarrow> submitted = [])
        \<and> (\<not> w_flusher w \<or> chan = None \<longrightarrow> submitted = [])
        \<and> length submitted \<le> 1)\<close>
  by (simp add: StreamResponse_submitted Let_def)

theorem usage_event_carries_last_figure_witness:
  \<open>out_submitted (StreamResponse example_Unmarshal
      \<lparr>w_headers = [], w_status = None, w_body = [], w_flusher = True\<rparr>
      \<lparr>StatusCode = 200, Header = [],
       Body = example_usage_stream\<rparr>
      ''k'' (Some \<lparr>chan_cap = 1000, chan_buf = []\<rparr>))
    = [\<lparr>APIKey = ''k'', TokenCount = 18\<rparr>]\<close>
  using usage_event_carries_last_figure [of example_Unmarshal
      \<open>\<lparr>StatusCode = 200, Header = [],
       Body = example_usage_stream\<rparr>\<close>
      "\<lparr>w_headers = [], w_status = None, w_body = [], w_flusher = True\<rparr>" "''k''"
      "Some \<lparr>chan_cap = 1000, chan_buf = []\<rparr>"]
  by (simp add: Let_def scan_usage_stream usage_of_example_lines List.map_filter_simps)

text \<open>
  The claim as stated, one event whenever a usage figure was observed and the token is
  non-empty, fails for a stream whose last usage figure is 0: the figure is observed and
  nothing is offered to the channel.
\<close>

theorem zero_usage_submits_nothing:
  \<open>List.map_filter (usage_of_line example_Unmarshal)
      (fst (scan_lines maxScanTokenSize []
         example_zero_usage_stream))
     = [0]
   \<and> out_submitted (StreamResponse example_Unmarshal
        \<lparr>w_headers = [], w_status = None, w_body = [], w_flusher = True\<rparr>
        \<lparr>StatusCode = 200, Header = [],
         Body = example_zero_usage_stream\<rparr>
        ''k'' (Some \<lparr>chan_cap = 1000, chan_buf = []\<rparr>))
     = []\<close>
  by (simp add: StreamResponse_submitted Let_def scan_zero_usage_stream usage_of_example_lines
      List.map_filter_simps)

subsection \<open>Submitting to a full channel\<close>

text \<open>
  Claim C3, evaluated where it fails. The send never blocks: with room in the buffer the
  record is appended, and with a full buffer the channel is left as it was. On a full
  channel of capacity 1 the usage record of the stream is offered and dropped, and the
  outcome of the call (response, channel) is the outcome of the same call with no caller
  token, in which no record exists at all: nothing records the drop.
\<close>

theorem full_channel_drop_is_silent:
  \<open>chan_try_send \<lparr>chan_cap = 1, chan_buf = []\<rparr> \<lparr>APIKey = ''k'', TokenCount = 18\<rparr>
     = (\<lparr>chan_cap = 1, chan_buf = [\<lparr>APIKey = ''k'', TokenCount = 18\<rparr>]\<rparr>, True)
   \<and> chan_try_send \<lparr>chan_cap = 1, chan_buf = [\<lparr>APIKey = ''j'', TokenCount = 5\<rparr>]\<rparr>
        \<lparr>APIKey = ''k'', TokenCount = 18\<rparr>
     = (\<lparr>chan_cap = 1, chan_buf = [\<lparr>APIKey = ''j'', TokenCount = 5\<rparr>]\<rparr>, False)
   \<and> StreamResponse example_Unmarshal
        \<lparr>w_headers = [], w_status = None, w_body = [], w_flusher = True\<rparr>
        \<lparr>StatusCode = 200, Header = [],
         Body = example_usage_stream\<rparr>
        ''k'' (Some \<lparr>chan_cap = 1, chan_buf = [\<lparr>APIKey = ''j'', TokenCount = 5\<rparr>]\<rparr>)
     = (StreamResponse example_Unmarshal
          \<lparr>w_headers = [], w_status = None, w_body = [], w_flusher = True\<rparr>
          \<lparr>StatusCode = 200, Header = [],
           Body = example_usage_stream\<rparr>
          [] (Some \<lparr>chan_cap = 1, chan_buf = [\<lparr>APIKey = ''j'', TokenCount = 5\<rparr>]\<rparr>))
        \<lparr>out_submitted := [\<lparr>APIKey = ''k'', TokenCount = 18\<rparr>]\<rparr>\<close>
proof -
  show ?thesis
    by (simp add: chan_try_send_def StreamResponse_def Let_def split_beta scan_usage_stream
        usage_of_example_lines)
qed

section \<open>Properties of the handler\<close>




lemma inject_stream_options_fields:
  "inject_stream_options payload ''stream'' = Some (JBool True)"
  "inject_stream_options payload ''stream_options'' = Some (JObject [(''include_usage'', JBool True)])"
  "k \<noteq> ''stream'' \<Longrightarrow> k \<noteq> ''stream_options'' \<Longrightarrow>
     inject_stream_options payload k = (case payload of None \<Rightarrow> None | Some m \<Rightarrow> m k)"
  by (simp_all add: inject_stream_options_def Let_def split: option.splits)

subsection \<open>The rewritten request body\<close>

text \<open>
  Claim C7. Take a request that passes the circuit breaker and whose body is read, and let
  the body be empty or decode to the JSON object \<open>m\<close>. The payload \<open>p\<close> handed to
  \<^verbatim>\<open>json.Marshal\<close> has \<^verbatim>\<open>stream\<close> equal to \<^verbatim>\<open>true\<close> and \<^verbatim>\<open>stream_options\<close> equal
  to \<^verbatim>\<open>{"include_usage": true}\<close>, whatever \<open>m\<close> held there, and every other field as in
  \<open>m\<close> (no other field for an empty body). The body of every request sent upstream is
  the serialization of \<open>p\<close>, and when serialization and request construction succeed
  exactly one request is sent, with that body.
\<close>

theorem outbound_body_forces_streaming:
  assumes "check_circuit_breaker h (extract_apiKey r) = None"
    and "req_body r = Some b"
    and "b = [] \<or> json_Decode lib b = Some (Some m)"
  shows
    "(let original = (if b = [] then Map.empty else m);
          p = inject_stream_options (if b = [] then None else Some m)
      in p ''stream'' = Some (JBool True)
         \<and> p ''stream_options'' = Some (JObject [(''include_usage'', JBool True)])
         \<and> (\<forall>k. k \<noteq> ''stream'' \<and> k \<noteq> ''stream_options'' \<longrightarrow> p k = original k)
         \<and> (\<forall>q \<in> set (h_upstream_calls (ServeHTTP lib h w r)). json_Marshal lib p = Some (up_body q))
         \<and> (\<forall>out. json_Marshal lib p = Some out \<and> http_NewRequest_ok lib (req_method r) (upstreamURL h) \<longrightarrow>
               map up_body (h_upstream_calls (ServeHTTP lib h w r)) = [out]))"
proof -
  let ?p = "inject_stream_options (if b = [] then None else Some m)"
  have dec: "(if length b > 0 then json_Decode lib b else Some None)
               = Some (if b = [] then None else Some m)"
    using assms(3) by auto
  have calls: "h_upstream_calls (ServeHTTP lib h w r) =
      (case json_Marshal lib ?p of
         None \<Rightarrow> []
       | Some out \<Rightarrow>
           if http_NewRequest_ok lib (req_method r) (upstreamURL h)
           then [build_upstream_request h r out] else [])"
    using assms(1,2) dec
    by (simp add: ServeHTTP_def reply_error_def Let_def split: option.splits)
  have body: "up_body (build_upstream_request h r out) = out" for out
    by (simp add: build_upstream_request_def Let_def)
  have sent: "\<forall>q \<in> set (h_upstream_calls (ServeHTTP lib h w r)). json_Marshal lib ?p = Some (up_body q)"
    by (auto simp: calls body split: option.splits if_splits)
  have one: "\<forall>out. json_Marshal lib ?p = Some out \<and> http_NewRequest_ok lib (req_method r) (upstreamURL h) \<longrightarrow>
               map up_body (h_upstream_calls (ServeHTTP lib h w r)) = [out]"
    by (simp add: calls body)
  have other: "\<forall>k. k \<noteq> ''stream'' \<and> k \<noteq> ''stream_options'' \<longrightarrow>
      ?p k = (if b = [] then Map.empty else m) k"
    by (simp add: inject_stream_options_fields)
  show ?thesis
    unfolding Let_def using sent one other by (simp add: inject_stream_options_fields(1,2))
qed

theorem outbound_body_forces_streaming_witness:
  \<open>map up_body (h_upstream_calls (ServeHTTP example_lib
      \<lparr>upstreamURL = ''http://localhost:8081/v1/chat/completions'', circuitBreaker = None,
       usageChan = None\<rparr>
      \<lparr>w_headers = [], w_status = None, w_body = [], w_flusher = True\<rparr>
      \<lparr>req_method = ''POST'', req_header = [(''Authorization'', [''Bearer k''])],
       req_body = Some ''{}''\<rparr>))
    = [''{"stream":true,"stream_options":{"include_usage":true}}'']\<close>
  using outbound_body_forces_streaming [of
      "\<lparr>upstreamURL = ''http://localhost:8081/v1/chat/completions'', circuitBreaker = None,
        usageChan = None\<rparr>"
      "\<lparr>req_method = ''POST'', req_header = [(''Authorization'', [''Bearer k''])],
        req_body = Some ''{}''\<rparr>"
      "''{}''" example_lib Map.empty
      "\<lparr>w_headers = [], w_status = None, w_body = [], w_flusher = True\<rparr>"]
  by (simp add: Let_def example_lib_def check_circuit_breaker_def)

subsection \<open>What the decoder accepts\<close>




























subsection \<open>Rejecting a body that is not JSON\<close>





end
